theory Spec2Isabelle
  imports Complex_Main "HOL-Library.Sublist"
begin

section \<open>JavaScript numbers\<close>

text \<open>
  The component computes with JavaScript numbers. A number is modelled as a real, or one
  of the three special values a division can produce. Rounding to double precision and
  the sign of zero are not modelled: every zero divisor counts as \<open>+0\<close>.
\<close>

datatype jsnum = Num real | Infinity | NegInfinity | NaN

text \<open>\<open>ToNumber\<close> of a state field that may still be \<open>undefined\<close> (\<open>None\<close>).\<close>

fun to_number :: "jsnum option \<Rightarrow> jsnum" where
  "to_number None = NaN"
| "to_number (Some x) = x"

fun js_sgn :: "jsnum \<Rightarrow> int" where
  "js_sgn (Num a) = (if a = 0 then 0 else if 0 < a then 1 else -1)"
| "js_sgn Infinity = 1"
| "js_sgn NegInfinity = -1"
| "js_sgn NaN = 0"

fun js_neg :: "jsnum \<Rightarrow> jsnum" where
  "js_neg (Num a) = Num (- a)"
| "js_neg Infinity = NegInfinity"
| "js_neg NegInfinity = Infinity"
| "js_neg NaN = NaN"

fun js_add :: "jsnum \<Rightarrow> jsnum \<Rightarrow> jsnum" where
  "js_add (Num a) (Num b) = Num (a + b)"
| "js_add NaN y = NaN"
| "js_add x NaN = NaN"
| "js_add Infinity NegInfinity = NaN"
| "js_add NegInfinity Infinity = NaN"
| "js_add Infinity y = Infinity"
| "js_add x Infinity = Infinity"
| "js_add NegInfinity y = NegInfinity"
| "js_add x NegInfinity = NegInfinity"

definition js_sub :: "jsnum \<Rightarrow> jsnum \<Rightarrow> jsnum" where
  "js_sub x y = js_add x (js_neg y)"

fun js_mul :: "jsnum \<Rightarrow> jsnum \<Rightarrow> jsnum" where
  "js_mul (Num a) (Num b) = Num (a * b)"
| "js_mul NaN y = NaN"
| "js_mul x NaN = NaN"
| "js_mul x y =
     (if js_sgn x * js_sgn y = 0 then NaN
      else if 0 < js_sgn x * js_sgn y then Infinity else NegInfinity)"

fun js_div :: "jsnum \<Rightarrow> jsnum \<Rightarrow> jsnum" where
  "js_div (Num a) (Num b) =
     (if b = 0 then (if a = 0 then NaN else if 0 < a then Infinity else NegInfinity)
      else Num (a / b))"
| "js_div NaN y = NaN"
| "js_div x NaN = NaN"
| "js_div (Num a) y = Num 0"
| "js_div x (Num b) =
     (if (0 \<le> b) = (x = Infinity) then Infinity else NegInfinity)"
| "js_div x y = NaN"

text \<open>\<open>Math.pow(x, 3)\<close>.\<close>

definition js_pow3 :: "jsnum \<Rightarrow> jsnum" where
  "js_pow3 x = js_mul x (js_mul x x)"

section \<open>Helpers outside \<open>src/index.js\<close>\<close>

type_synonym point = "jsnum \<times> jsnum"
type_synonym points = "point list"

text \<open>
  Modelled from the spec: \<open>easeOutCubic\<close> of \<open>./helpers/easing\<close>, which is not among the
  sources. With time \<open>t\<close>, start value \<open>b\<close>, change \<open>c\<close> and duration \<open>d\<close> the spec
  gives \<open>n = t / d\<close> and \<open>result = c * (Math.pow(n - 1, 3) + 1) + b\<close>.
\<close>

definition easeOutCubic :: "jsnum \<Rightarrow> jsnum \<Rightarrow> jsnum \<Rightarrow> jsnum \<Rightarrow> jsnum" where
  "easeOutCubic t b c d =
     js_add (js_mul c (js_add (js_pow3 (js_sub (js_div t d) (Num 1))) (Num 1))) b"

section \<open>Props, state and the world around the component\<close>

text \<open>
  The props the logic reads. The colours only reach the renderer and are left out; the
  \<open>play\<close> and \<open>stop\<close> callbacks belong to the owner of the \<open>active\<close> flag. Numbers
  supplied as configuration are finite. A missing \<open>active\<close> prop is falsy, so it is
  \<open>False\<close>.
\<close>

record props =
  url :: string
  active :: bool
  audioId :: string
  audioFormat :: string
  size_prop :: real
  progressCircleWidth :: real
  iconAnimationLength :: real
  fadeInLength :: real
  fadeOutLength :: real

text \<open>
  \<open>getStopIconPoints\<close> and \<open>getPlayIconPoints\<close> of \<open>./helpers/icon-points\<close> are not among
  the sources and the spec gives no formula for them: they are parameters.
\<close>

record helpers =
  getStopIconPoints :: "props \<Rightarrow> points"
  getPlayIconPoints :: "props \<Rightarrow> points"

text \<open>\<open>this.state\<close>; \<open>duration\<close> is \<open>undefined\<close> (\<open>None\<close>) until \<open>onload\<close> sets it.\<close>

record comp_state =
  progress :: jsnum
  loading :: bool
  iconPoints :: points
  duration :: "jsnum option"

text \<open>
  Calls received by the audio engine, in order. A \<open>Howl\<close> object is a handle, a natural
  number handed out by the engine at \<open>new Howl\<close>.
\<close>

datatype call =
    is_New: New nat string string
  | is_Play: Play nat
  | is_Fade: Fade nat real real real
  | is_Stop: Stop nat
  | is_Unload: Unload nat

text \<open>The closure of one \<open>animateIcon\<close> call.\<close>

record run =
  startTime :: real
  durationMs :: real
  initialPoints :: points
  finalPoints :: points

text \<open>Callbacks waiting in \<open>requestAnimationFrame\<close>, in \<open>setTimeout\<close>, and behind \<open>setState\<close>.\<close>

datatype frame = ProgressFrame | IconFrame run

datatype timer = StopTimer

datatype callback = UpdateProgress

datatype shape = ShapeStop | ShapePlay

datatype error = TypeError

record world =
  props :: props
  state :: comp_state
  howler :: "nat option"
  next_handle :: nat
  calls :: "call list"
  frames :: "frame list"
  timers :: "(real \<times> timer) list"

section \<open>The component\<close>

text \<open>\<open>constructor(props)\<close>: nothing is bound yet and nothing is scheduled.\<close>

definition constructor :: "helpers \<Rightarrow> props \<Rightarrow> world" where
  "constructor H p =
     \<lparr>props = p,
      state = \<lparr>progress = Num 0, loading = True, iconPoints = getPlayIconPoints H p,
               duration = None\<rparr>,
      howler = None, next_handle = 0, calls = [], frames = [], timers = []\<rparr>"

text \<open>
  \<open>setupHowler\<close>: unload the current \<open>Howl\<close> if there is one, then create a new one from
  \<open>this.props\<close> and keep it in \<open>this.howler\<close>.
\<close>

definition setupHowler :: "world \<Rightarrow> world" where
  "setupHowler w =
     (let w1 = (case howler w of None \<Rightarrow> w
                | Some h \<Rightarrow> w\<lparr>calls := calls w @ [Unload h]\<rparr>);
          n = next_handle w1
      in w1\<lparr>howler := Some n, next_handle := Suc n,
             calls := calls w1 @ [New n (url (props w1)) (audioFormat (props w1))]\<rparr>)"

definition componentWillMount :: "world \<Rightarrow> world" where
  "componentWillMount w = setupHowler w"

definition mount :: "helpers \<Rightarrow> props \<Rightarrow> world" where
  "mount H p = componentWillMount (constructor H p)"

definition componentWillUnmount :: "world \<Rightarrow> error + world" where
  "componentWillUnmount w =
     (case howler w of None \<Rightarrow> Inl TypeError
      | Some h \<Rightarrow> Inr (w\<lparr>calls := calls w @ [Unload h]\<rparr>))"

text \<open>The \<open>onload\<close> callback; \<open>d\<close> is what \<open>this.howler.duration(audioId)\<close> returns, in seconds.\<close>

definition onload :: "real \<Rightarrow> world \<Rightarrow> error + world" where
  "onload d w =
     (case howler w of None \<Rightarrow> Inl TypeError
      | Some h \<Rightarrow>
          Inr (w\<lparr>state := (state w)\<lparr>loading := False, duration := Some (Num (d * 1000))\<rparr>\<rparr>))"

text \<open>\<open>updateProgress\<close> up to its \<open>requestAnimationFrame\<close> call.\<close>

definition updateProgress :: "world \<Rightarrow> world" where
  "updateProgress w =
     (if \<not> active (props w) then w else w\<lparr>frames := frames w @ [ProgressFrame]\<rparr>)"

text \<open>
  The frame callback of \<open>updateProgress\<close>; \<open>s\<close> is what \<open>this.howler.seek()\<close> returns, in
  seconds. Outside a React batch \<open>setState\<close> takes effect at once.
\<close>

definition progressFrame :: "real \<Rightarrow> world \<Rightarrow> error + world" where
  "progressFrame s w =
     (case howler w of None \<Rightarrow> Inl TypeError
      | Some h \<Rightarrow>
          Inr (updateProgress
            (w\<lparr>state := (state w)
                 \<lparr>progress := js_div (Num (s * 1000)) (to_number (duration (state w)))\<rparr>\<rparr>)))"

text \<open>
  \<open>animateIcon(shape)\<close> at clock reading \<open>t\<close>: it builds the closure and \<open>updatePosition\<close>
  asks for the first frame.
\<close>

definition animateIcon :: "helpers \<Rightarrow> shape \<Rightarrow> real \<Rightarrow> world \<Rightarrow> world" where
  "animateIcon H sh t w =
     w\<lparr>frames := frames w @
        [IconFrame \<lparr>startTime = t, durationMs = iconAnimationLength (props w),
           initialPoints = iconPoints (state w),
           finalPoints = (case sh of ShapeStop \<Rightarrow> getStopIconPoints H (props w)
                          | ShapePlay \<Rightarrow> getPlayIconPoints H (props w))\<rparr>]\<rparr>"

text \<open>
  \<open>initialPoints.map((initialPoint, index) => ...)\<close>: destructuring \<open>finalPoints[index]\<close>
  throws when \<open>finalPoints\<close> is the shorter list.
\<close>

fun newPoints :: "real \<Rightarrow> real \<Rightarrow> points \<Rightarrow> points \<Rightarrow> points option" where
  "newPoints time d [] fs = Some []"
| "newPoints time d (p # ps) [] = None"
| "newPoints time d ((initialX, initialY) # ps) ((finalX, finalY) # fs) =
     (case newPoints time d ps fs of None \<Rightarrow> None
      | Some qs \<Rightarrow>
          Some ((easeOutCubic (Num time) initialX (js_sub finalX initialX) (Num d),
                 easeOutCubic (Num time) initialY (js_sub finalY initialY) (Num d)) # qs))"

text \<open>The frame callback inside \<open>updatePosition\<close>, at clock reading \<open>now\<close>.\<close>

definition iconFrame :: "run \<Rightarrow> real \<Rightarrow> world \<Rightarrow> error + world" where
  "iconFrame r now w =
     (let time = now - startTime r in
      if time > durationMs r then Inr w
      else (case newPoints time (durationMs r) (initialPoints r) (finalPoints r) of
              None \<Rightarrow> Inl TypeError
            | Some ps \<Rightarrow>
                Inr (w\<lparr>state := (state w)\<lparr>iconPoints := ps\<rparr>,
                       frames := frames w @ [IconFrame r]\<rparr>)))"

text \<open>
  \<open>triggerPlayAudio\<close> and \<open>triggerStopAudio\<close> run inside \<open>componentWillReceiveProps\<close>. There
  \<open>setState\<close> is batched: the patch only sets \<open>progress\<close>, which nothing reads before the
  update is flushed, so it is applied at once; the callback given to \<open>setState\<close> is
  returned, to be run after the update.
\<close>

definition triggerPlayAudio :: "helpers \<Rightarrow> real \<Rightarrow> world \<Rightarrow> error + world \<times> callback list" where
  "triggerPlayAudio H t w =
     (case howler w of None \<Rightarrow> Inl TypeError
      | Some h \<Rightarrow>
          (let w1 = w\<lparr>calls := calls w @ [Play h, Fade h 0 1 (fadeInLength (props w))]\<rparr>;
               w2 = animateIcon H ShapeStop t w1
           in Inr (w2\<lparr>state := (state w2)\<lparr>progress := Num 0\<rparr>\<rparr>, [UpdateProgress])))"

definition triggerStopAudio :: "helpers \<Rightarrow> real \<Rightarrow> world \<Rightarrow> error + world \<times> callback list" where
  "triggerStopAudio H t w =
     (case howler w of None \<Rightarrow> Inl TypeError
      | Some h \<Rightarrow>
          (let w1 = w\<lparr>calls := calls w @ [Fade h 1 0 (fadeOutLength (props w))],
                     timers := timers w @ [(fadeOutLength (props w), StopTimer)]\<rparr>;
               w2 = animateIcon H ShapePlay t w1
           in Inr (w2\<lparr>state := (state w2)\<lparr>progress := Num 0\<rparr>\<rparr>, [])))"

text \<open>The timer callback \<open>() => this.howler.stop()\<close>.\<close>

definition stopTimer :: "world \<Rightarrow> error + world" where
  "stopTimer w =
     (case howler w of None \<Rightarrow> Inl TypeError
      | Some h \<Rightarrow> Inr (w\<lparr>calls := calls w @ [Stop h]\<rparr>))"

text \<open>\<open>componentWillReceiveProps(nextProps)\<close>; \<open>this.props\<close> are still the previous props.\<close>

definition componentWillReceiveProps ::
  "helpers \<Rightarrow> props \<Rightarrow> real \<Rightarrow> world \<Rightarrow> error + world \<times> callback list" where
  "componentWillReceiveProps H nextProps t w =
     (let justStartedPlaying = (\<not> active (props w) \<and> active nextProps);
          justStoppedPlaying = (active (props w) \<and> \<not> active nextProps);
          newAudioClip = (url (props w) \<noteq> url nextProps);
          r = (if justStartedPlaying then triggerPlayAudio H t w
               else if justStoppedPlaying then triggerStopAudio H t w
               else Inr (w, []))
      in case r of Inl e \<Rightarrow> Inl e
         | Inr (w1, cbs) \<Rightarrow> Inr (if newAudioClip then setupHowler w1 else w1, cbs))"

text \<open>
  After \<open>componentWillReceiveProps\<close> React installs the new props and then runs the
  callbacks given to \<open>setState\<close>.
\<close>

fun runCallbacks :: "callback list \<Rightarrow> world \<Rightarrow> world" where
  "runCallbacks [] w = w"
| "runCallbacks (UpdateProgress # cs) w = runCallbacks cs (updateProgress w)"

definition receiveProps :: "helpers \<Rightarrow> props \<Rightarrow> real \<Rightarrow> world \<Rightarrow> error + world" where
  "receiveProps H nextProps t w =
     (case componentWillReceiveProps H nextProps t w of Inl e \<Rightarrow> Inl e
      | Inr (w1, cbs) \<Rightarrow> Inr (runCallbacks cbs (w1\<lparr>props := nextProps\<rparr>)))"

section \<open>Executions\<close>

text \<open>
  What can happen to a mounted component: new props arrive (with the clock reading),
  the oldest pending frame callback fires (with the clock reading and the engine's
  \<open>seek()\<close>), a pending timer fires, the engine reports the clip loaded (with its
  \<open>duration()\<close>), or the component is unmounted. Clock readings and the engine's
  answers are finite numbers; they are inputs, not constrained here. Frame callbacks
  fire one per event, in the order they were requested, which is the order of
  \<open>requestAnimationFrame\<close>; timers may fire in any order. The \<open>onend\<close> callback is the
  owner's \<open>stop\<close> prop and changes nothing in the component.
\<close>

datatype event =
    ReceiveProps props real
  | Frame real real
  | Timeout nat
  | is_OnLoad: OnLoad real
  | Unmount

fun step :: "helpers \<Rightarrow> world \<Rightarrow> event \<Rightarrow> error + world" where
  "step H w (ReceiveProps nextProps t) = receiveProps H nextProps t w"
| "step H w (Frame t s) =
     (case frames w of [] \<Rightarrow> Inr w
      | ProgressFrame # fs \<Rightarrow> progressFrame s (w\<lparr>frames := fs\<rparr>)
      | IconFrame r # fs \<Rightarrow> iconFrame r t (w\<lparr>frames := fs\<rparr>))"
| "step H w (Timeout i) =
     (if i < length (timers w)
      then (case snd (timers w ! i) of
              StopTimer \<Rightarrow> stopTimer (w\<lparr>timers := take i (timers w) @ drop (Suc i) (timers w)\<rparr>))
      else Inr w)"
| "step H w (OnLoad d) = onload d w"
| "step H w Unmount = componentWillUnmount w"

fun run_events :: "helpers \<Rightarrow> world \<Rightarrow> event list \<Rightarrow> error + world" where
  "run_events H w [] = Inr w"
| "run_events H w (e # es) =
     (case step H w e of Inl err \<Rightarrow> Inl err | Inr w' \<Rightarrow> run_events H w' es)"

text \<open>The sessions created and not yet unloaded, read off the engine's call log.\<close>

fun live_after :: "nat list \<Rightarrow> call list \<Rightarrow> nat list" where
  "live_after acc [] = acc"
| "live_after acc (New h u f # cs) = live_after (acc @ [h]) cs"
| "live_after acc (Unload h # cs) = live_after (removeAll h acc) cs"
| "live_after acc (c # cs) = live_after acc cs"

definition live :: "call list \<Rightarrow> nat list" where
  "live cs = live_after [] cs"

text \<open>An event that switches the \<open>active\<close> prop on.\<close>

fun activates :: "event \<Rightarrow> bool" where
  "activates (ReceiveProps nextProps t) = active nextProps"
| "activates e = False"

text \<open>
  The spec's wording of the progress value, to compare with what \<open>progressFrame\<close>
  publishes: elapsed time over duration, clamped to the interval from 0 to 1.
\<close>

definition clamped_progress :: "real \<Rightarrow> real \<Rightarrow> real" where
  "clamped_progress elapsedMs totalMs = max 0 (min 1 (elapsedMs / totalMs))"

text \<open>Points whose coordinates are all finite numbers.\<close>

definition finite_points :: "(real \<times> real) list \<Rightarrow> points" where
  "finite_points ps = map (\<lambda>(x, y). (Num x, Num y)) ps"

text \<open>
  The value of \<open>easeOutCubic\<close> on finite arguments with a duration other than 0, and the
  points a frame of a run between finite points publishes (see \<open>ease_finite\<close> and
  \<open>newPoints_finite\<close> below).
\<close>

definition ease_real :: "real \<Rightarrow> real \<Rightarrow> real \<Rightarrow> real \<Rightarrow> real" where
  "ease_real t b c d = c * ((t / d - 1) ^ 3 + 1) + b"

definition morphed ::
  "real \<Rightarrow> real \<Rightarrow> (real \<times> real) list \<Rightarrow> (real \<times> real) list \<Rightarrow> (real \<times> real) list" where
  "morphed t d ip fp =
     map2 (\<lambda>(ix, iy) (fx, fy). (ease_real t ix (fx - ix) d, ease_real t iy (fy - iy) d)) ip fp"

text \<open>
  A configuration for closed instances: the default props of the component, and two
  polygons of four points standing for the shapes the icon helpers return.
\<close>

definition example_props :: props where
  "example_props =
     \<lparr>url = ''a.mp3'', active = False, audioId = ''id'', audioFormat = ''mp3'',
      size_prop = 45, progressCircleWidth = 4, iconAnimationLength = 450,
      fadeInLength = 0, fadeOutLength = 0\<rparr>"

definition example_helpers :: helpers where
  "example_helpers =
     \<lparr>getStopIconPoints =
        (\<lambda>p. finite_points [(14, 14), (14, 31), (31, 31), (31, 14)]),
      getPlayIconPoints =
        (\<lambda>p. finite_points [(16, 13), (16, 32), (33, 22), (33, 22)])\<rparr>"

section \<open>Basic facts\<close>

lemmas defs = mount_def componentWillMount_def constructor_def setupHowler_def
  receiveProps_def componentWillReceiveProps_def triggerPlayAudio_def triggerStopAudio_def
  animateIcon_def updateProgress_def progressFrame_def iconFrame_def onload_def
  stopTimer_def componentWillUnmount_def Let_def

lemmas ex_defs = example_props_def example_helpers_def finite_points_def

lemma mount_howler: "howler (mount H p) = Some 0"
  by (simp add: defs)

lemma step_howler:
  assumes "step H w e = Inr w'" and "howler w \<noteq> None"
  shows "howler w' \<noteq> None"
proof (cases e)
  case (ReceiveProps np t)
  with assms show ?thesis
    by (auto simp add: defs split: if_splits option.splits)
next
  case (Frame t s)
  with assms show ?thesis
    by (auto simp add: defs split: if_splits option.splits list.splits frame.splits)
next
  case (Timeout i)
  with assms show ?thesis
    by (auto simp add: defs split: if_splits option.splits timer.splits)
next
  case (OnLoad d)
  with assms show ?thesis
    by (auto simp add: defs split: option.splits)
next
  case Unmount
  with assms show ?thesis
    by (auto simp add: defs split: option.splits)
qed

lemma run_events_howler:
  "run_events H w evs = Inr w' \<Longrightarrow> howler w \<noteq> None \<Longrightarrow> howler w' \<noteq> None"
proof (induction evs arbitrary: w)
  case Nil
  then show ?case by simp
next
  case (Cons e es)
  then show ?case
    by (auto split: sum.splits dest: step_howler)
qed

section \<open>The progress loop\<close>

text \<open>
  Claim C1, as the code has it. A frame callback of the progress loop publishes
  \<open>seek() * 1000 / duration\<close> as it is: nothing clamps the quotient. With a positive
  recorded duration and an elapsed time between 0 and that duration the quotient lies
  between 0 and 1 and so equals the clamped value of the spec; it is 0 at elapsed time
  0 and 1 when the elapsed time equals the duration.
\<close>

theorem progress_tick_unclamped:
  assumes "frames w = ProgressFrame # fs" and "howler w = Some h"
    and "duration (state w) = Some (Num d)" and "0 < d"
  shows "\<exists>w'. step H w (Frame t s) = Inr w' \<and>
     progress (state w') = Num (s * 1000 / d) \<and>
     (0 \<le> s * 1000 \<and> s * 1000 \<le> d \<longrightarrow>
        progress (state w') = Num (clamped_progress (s * 1000) d) \<and>
        0 \<le> s * 1000 / d \<and> s * 1000 / d \<le> 1) \<and>
     (s = 0 \<longrightarrow> progress (state w') = Num 0) \<and>
     (s * 1000 = d \<longrightarrow> progress (state w') = Num 1)"
  using assms
  by (auto simp add: progressFrame_def updateProgress_def clamped_progress_def)

theorem progress_tick_unclamped_witness:
  "\<exists>w w'. run_events example_helpers (mount example_helpers example_props)
       [OnLoad 2, ReceiveProps (example_props\<lparr>active := True\<rparr>) 0, Frame 1000 0] = Inr w \<and>
     frames w = [ProgressFrame] \<and> duration (state w) = Some (Num 2000) \<and>
     step example_helpers w (Frame 1016 0.5) = Inr w' \<and>
     progress (state w') = Num (1 / 4) \<and>
     progress (state w') = Num (clamped_progress 500 2000)"
  using progress_tick_unclamped [of "projr (run_events example_helpers
       (mount example_helpers example_props)
       [OnLoad 2, ReceiveProps (example_props\<lparr>active := True\<rparr>) 0, Frame 1000 0])"
       "[]" 0 2000 example_helpers 1016 "0.5"]
  by (simp add: defs ex_defs clamped_progress_def)

text \<open>
  Claim C1 as stated fails: with a recorded duration of 1000 ms and the engine
  reporting a position of 1.001 s, the loop of an active, loaded component publishes
  1001 / 1000, not the clamped value 1.
\<close>

theorem progress_unclamped_counterexample:
  "\<exists>w. run_events example_helpers (mount example_helpers example_props)
          [OnLoad 1, ReceiveProps (example_props\<lparr>active := True\<rparr>) 0, Frame 1000 1,
           Frame 1016 1.001] = Inr w \<and>
        active (props w) \<and> \<not> loading (state w) \<and> duration (state w) = Some (Num 1000) \<and>
        progress (state w) = Num (1001 / 1000) \<and>
        clamped_progress (1.001 * 1000) 1000 = 1 \<and>
        progress (state w) \<noteq> Num (clamped_progress (1.001 * 1000) 1000)"
  by (simp add: defs ex_defs clamped_progress_def)

lemma step_duration_unset:
  assumes "step H w e = Inr w'" and "\<not> is_OnLoad e" and "duration (state w) = None"
  shows "duration (state w') = None"
proof (cases e)
  case (ReceiveProps np t)
  with assms show ?thesis
    by (auto simp add: defs split: if_splits option.splits)
next
  case (Frame t s)
  with assms show ?thesis
    by (auto simp add: defs split: if_splits option.splits list.splits frame.splits)
next
  case (Timeout i)
  with assms show ?thesis
    by (auto simp add: defs split: if_splits option.splits timer.splits)
next
  case (OnLoad d)
  with assms show ?thesis by simp
next
  case Unmount
  with assms show ?thesis
    by (auto simp add: defs split: option.splits)
qed

lemma run_events_duration_unset:
  "run_events H w evs = Inr w' \<Longrightarrow> \<forall>e\<in>set evs. \<not> is_OnLoad e \<Longrightarrow>
   duration (state w) = None \<Longrightarrow> duration (state w') = None"
proof (induction evs arbitrary: w)
  case Nil
  then show ?case by simp
next
  case (Cons e es)
  then show ?case
    by (auto split: sum.splits dest: step_duration_unset)
qed

text \<open>
  Claim C10, as the code has it. A frame callback of the progress loop divides by the
  recorded duration unguarded, whatever it holds. In an execution of a mounted
  component in which no \<open>onload\<close> callback has run since the mount, the recorded duration
  is still \<open>undefined\<close> and every value the loop publishes is \<open>NaN\<close>. A rebind does not
  clear the recorded duration: once some session has loaded, the loop divides by the
  duration recorded last, also while the current session has not loaded yet.
\<close>

theorem progress_before_load_is_NaN:
  assumes "run_events H (mount H p) evs = Inr w" and "Unmount \<notin> set evs"
    and "frames w = ProgressFrame # fs"
  shows "\<exists>w'. step H w (Frame t s) = Inr w' \<and>
     progress (state w') = js_div (Num (s * 1000)) (to_number (duration (state w))) \<and>
     ((\<forall>e\<in>set evs. \<not> is_OnLoad e) \<longrightarrow>
        duration (state w) = None \<and> progress (state w') = NaN)"
proof -
  have "howler w \<noteq> None"
    using run_events_howler [OF assms(1)] by (simp add: mount_howler)
  then obtain h where "howler w = Some h" by auto
  with assms(3) obtain w' where s: "step H w (Frame t s) = Inr w'"
    and v: "progress (state w') = js_div (Num (s * 1000)) (to_number (duration (state w)))"
    by (simp add: progressFrame_def updateProgress_def)
  have "duration (state w) = None \<and> progress (state w') = NaN"
    if n: "\<forall>e\<in>set evs. \<not> is_OnLoad e"
  proof -
    have "duration (state w) = None"
      using run_events_duration_unset [OF assms(1) n] by (simp add: defs)
    with v show ?thesis by simp
  qed
  with s v show ?thesis by blast
qed

theorem progress_before_load_is_NaN_witness:
  "\<exists>w w'. run_events example_helpers (mount example_helpers example_props)
       [ReceiveProps (example_props\<lparr>active := True\<rparr>) 0, Frame 1000 0] = Inr w \<and>
     frames w = [ProgressFrame] \<and> duration (state w) = None \<and>
     step example_helpers w (Frame 1016 0.5) = Inr w' \<and> progress (state w') = NaN"
proof -
  obtain w where w: "run_events example_helpers (mount example_helpers example_props)
       [ReceiveProps (example_props\<lparr>active := True\<rparr>) 0, Frame 1000 0] = Inr w"
     and f: "frames w = [ProgressFrame]"
    by (simp add: defs ex_defs)
  from progress_before_load_is_NaN [OF w _ f, of 1016 "0.5"] w f show ?thesis
    by auto
qed

text \<open>
  Claim C10 as stated fails: the first session loads (1 s), a change of the URL
  rebinds, and the component is activated before any load callback of the new session
  has fired. The recorded duration is not unset but still the 1000 ms of the old
  session, and the loop publishes 250 / 1000, a number between 0 and 1, not \<open>NaN\<close>.
\<close>

theorem progress_before_reload_counterexample:
  "\<exists>w0 w w'. run_events example_helpers (mount example_helpers example_props)
       [OnLoad 1, ReceiveProps (example_props\<lparr>url := ''b.mp3''\<rparr>) 5] = Inr w0 \<and>
     howler w0 = Some 1 \<and> live (calls w0) = [1] \<and> \<not> active (props w0) \<and>
     run_events example_helpers w0
       [ReceiveProps (example_props\<lparr>url := ''b.mp3'', active := True\<rparr>) 10, Frame 1000 0] =
       Inr w \<and>
     howler w = Some 1 \<and> active (props w) \<and> frames w = [ProgressFrame] \<and>
     duration (state w) = Some (Num 1000) \<and>
     step example_helpers w (Frame 1016 0.25) = Inr w' \<and>
     progress (state w') = Num (1 / 4) \<and> progress (state w') \<noteq> NaN"
  by (simp add: defs ex_defs live_def)

lemma step_quiet:
  assumes "step H w e = Inr w'" and "\<not> activates e"
    and "\<not> active (props w)" and "ProgressFrame \<notin> set (frames w)"
  shows "\<not> active (props w') \<and> ProgressFrame \<notin> set (frames w') \<and>
     progress (state w') = progress (state w)"
proof (cases e)
  case (ReceiveProps np t)
  with assms show ?thesis
    by (auto simp add: defs split: if_splits option.splits)
next
  case (Frame t s)
  with assms show ?thesis
    by (auto simp add: defs split: if_splits option.splits list.splits frame.splits)
next
  case (Timeout i)
  with assms show ?thesis
    by (auto simp add: defs split: if_splits option.splits timer.splits)
next
  case (OnLoad d)
  with assms show ?thesis
    by (auto simp add: defs split: option.splits)
next
  case Unmount
  with assms show ?thesis
    by (auto simp add: defs split: option.splits)
qed

lemma run_events_quiet:
  "run_events H w evs = Inr w' \<Longrightarrow> \<forall>e\<in>set evs. \<not> activates e \<Longrightarrow>
   \<not> active (props w) \<Longrightarrow> ProgressFrame \<notin> set (frames w) \<Longrightarrow>
   \<not> active (props w') \<and> ProgressFrame \<notin> set (frames w') \<and>
     progress (state w') = progress (state w)"
proof (induction evs arbitrary: w)
  case Nil
  then show ?case by simp
next
  case (Cons e es)
  from Cons.prems(1) obtain w1
    where s: "step H w e = Inr w1" and r: "run_events H w1 es = Inr w'"
    by (auto split: sum.splits)
  from step_quiet [OF s] Cons.prems
  have q: "\<not> active (props w1)" "ProgressFrame \<notin> set (frames w1)"
    "progress (state w1) = progress (state w)" by auto
  from Cons.IH [OF r _ q(1,2)] Cons.prems(2) q(3) show ?case by auto
qed

text \<open>
  Claim C6, as the code has it. When \<open>updateProgress\<close> finds the \<open>active\<close> prop false it
  returns at once: it changes nothing and asks for no frame. The check comes after the
  frame callback's \<open>setState\<close>, so the callback that was already waiting when the flag
  went false still publishes one value; it is the loop's last: it is not scheduled
  again, and with no other progress callback pending, no event short of a new
  activation changes the published progress or brings a progress callback back.
\<close>

theorem progress_loop_terminates:
  assumes "frames w = ProgressFrame # fs" and "howler w = Some h" and "\<not> active (props w)"
  shows "updateProgress w = w \<and>
     (\<exists>w'. step H w (Frame t s) = Inr w' \<and> frames w' = fs \<and>
        progress (state w') = js_div (Num (s * 1000)) (to_number (duration (state w))) \<and>
        (\<forall>evs w''. ProgressFrame \<notin> set fs \<and> (\<forall>e\<in>set evs. \<not> activates e) \<and>
             run_events H w' evs = Inr w'' \<longrightarrow>
           progress (state w'') = progress (state w') \<and>
           ProgressFrame \<notin> set (frames w'')))"
proof -
  have u: "updateProgress w = w"
    using assms(3) by (simp add: updateProgress_def)
  obtain w' where s: "step H w (Frame t s) = Inr w'" and f: "frames w' = fs"
    and a: "\<not> active (props w')"
    and v: "progress (state w') = js_div (Num (s * 1000)) (to_number (duration (state w)))"
    using assms by (simp add: progressFrame_def updateProgress_def)
  have "progress (state w'') = progress (state w') \<and> ProgressFrame \<notin> set (frames w'')"
    if "ProgressFrame \<notin> set fs" and "\<forall>e\<in>set evs. \<not> activates e"
      and "run_events H w' evs = Inr w''" for evs w''
    using run_events_quiet [OF that(3,2) a] that(1) f by simp
  with u s f v show ?thesis by blast
qed

theorem progress_loop_terminates_witness:
  "\<exists>w w' w'' r. run_events example_helpers (mount example_helpers example_props)
       [OnLoad 2, ReceiveProps (example_props\<lparr>active := True\<rparr>) 0, Frame 1000 0.5,
        ReceiveProps example_props 1100] = Inr w \<and>
     frames w = [ProgressFrame, IconFrame r] \<and> \<not> active (props w) \<and>
     step example_helpers w (Frame 1116 0.6) = Inr w' \<and> frames w' = [IconFrame r] \<and>
     progress (state w') = Num (3 / 10) \<and>
     run_events example_helpers w' [Timeout 0, Frame 1132 0.7, OnLoad 3] = Inr w'' \<and>
     progress (state w'') = progress (state w') \<and> ProgressFrame \<notin> set (frames w'')"
  using progress_loop_terminates [of "projr (run_events example_helpers
       (mount example_helpers example_props)
       [OnLoad 2, ReceiveProps (example_props\<lparr>active := True\<rparr>) 0, Frame 1000 0.5,
        ReceiveProps example_props 1100])" _ 0 example_helpers 1116 "0.6"]
  by (simp add: defs ex_defs easeOutCubic_def js_sub_def js_pow3_def)

text \<open>
  Claim C6 as stated fails: the component is activated and, before any frame,
  deactivated again, which resets the progress to 0. At the next frame the progress
  callback requested at the activation is the next to fire; the flag is false when
  it starts, and it still publishes a new progress value.
\<close>

theorem progress_after_deactivation_counterexample:
  "\<exists>w w'. run_events example_helpers (mount example_helpers example_props)
       [OnLoad 2, ReceiveProps (example_props\<lparr>active := True, fadeOutLength := 300\<rparr>) 0,
        ReceiveProps (example_props\<lparr>fadeOutLength := 300\<rparr>) 5, Frame 16 0.016] = Inr w \<and>
     \<not> active (props w) \<and> hd (frames w) = ProgressFrame \<and> progress (state w) = Num 0 \<and>
     step example_helpers w (Frame 16 0.016) = Inr w' \<and>
     \<not> active (props w') \<and> progress (state w') = Num (1 / 125) \<and>
     progress (state w') \<noteq> progress (state w)"
  by (simp add: defs ex_defs easeOutCubic_def js_sub_def js_pow3_def)

section \<open>Reacting to new props\<close>

text \<open>
  Claim C3. When \<open>active\<close> goes from false to true, the update calls \<open>play()\<close> once and
  \<open>fade(0, 1, fadeInLength)\<close> on the current session, asks for the first frame of a morph
  from the current points to the stop shape, sets the progress to 0 and, once the new
  props are installed, asks for the first frame of the progress loop. A change of the
  URL in the same update rebinds the session after these calls. The fade length is
  the one of the props in force when the update arrives.
\<close>

theorem activate_sequence:
  assumes "\<not> active (props w)" and "active nextProps" and "howler w = Some h"
  shows "\<exists>w'. step H w (ReceiveProps nextProps t) = Inr w' \<and>
     calls w' = calls w @ [Play h, Fade h 0 1 (fadeInLength (props w))] @
       (if url (props w) \<noteq> url nextProps
        then [Unload h, New (next_handle w) (url (props w)) (audioFormat (props w))]
        else []) \<and>
     length (filter is_Play (drop (length (calls w)) (calls w'))) = 1 \<and>
     frames w' = frames w @
       [IconFrame \<lparr>startTime = t, durationMs = iconAnimationLength (props w),
          initialPoints = iconPoints (state w),
          finalPoints = getStopIconPoints H (props w)\<rparr>,
        ProgressFrame] \<and>
     progress (state w') = Num 0 \<and> timers w' = timers w \<and> props w' = nextProps"
  using assms by (simp add: defs)

theorem activate_sequence_witness:
  "\<exists>w'. step example_helpers (mount example_helpers example_props)
       (ReceiveProps (example_props\<lparr>active := True\<rparr>) 0) = Inr w' \<and>
     calls w' = [New 0 ''a.mp3'' ''mp3'', Play 0, Fade 0 0 1 0] \<and>
     frames w' =
       [IconFrame \<lparr>startTime = 0, durationMs = 450,
          initialPoints = finite_points [(16, 13), (16, 32), (33, 22), (33, 22)],
          finalPoints = finite_points [(14, 14), (14, 31), (31, 31), (31, 14)]\<rparr>,
        ProgressFrame] \<and>
     progress (state w') = Num 0"
  using activate_sequence [of "mount example_helpers example_props"
      "example_props\<lparr>active := True\<rparr>" 0 example_helpers 0]
  by (simp add: defs example_props_def example_helpers_def)

text \<open>
  Claim C4. When \<open>active\<close> goes from true to false, the update calls
  \<open>fade(1, 0, fadeOutLength)\<close> once, puts one \<open>stop()\<close> behind a timer of \<open>fadeOutLength\<close>
  (no \<open>stop()\<close> is called by the update, and no frame callback calls it), asks for the
  first frame of a morph to the play shape and sets the progress to 0; no progress
  callback is added. When that timer fires it calls \<open>stop()\<close> once, on the session
  current at that moment.
\<close>

theorem deactivate_sequence:
  assumes "active (props w)" and "\<not> active nextProps" and "howler w = Some h"
  shows "\<exists>w' w''. step H w (ReceiveProps nextProps t) = Inr w' \<and>
     calls w' = calls w @ [Fade h 1 0 (fadeOutLength (props w))] @
       (if url (props w) \<noteq> url nextProps
        then [Unload h, New (next_handle w) (url (props w)) (audioFormat (props w))]
        else []) \<and>
     timers w' = timers w @ [(fadeOutLength (props w), StopTimer)] \<and>
     frames w' = frames w @
       [IconFrame \<lparr>startTime = t, durationMs = iconAnimationLength (props w),
          initialPoints = iconPoints (state w),
          finalPoints = getPlayIconPoints H (props w)\<rparr>] \<and>
     progress (state w') = Num 0 \<and> props w' = nextProps \<and>
     howler w' = Some (if url (props w) \<noteq> url nextProps then next_handle w else h) \<and>
     step H w' (Timeout (length (timers w))) = Inr w'' \<and>
     calls w'' = calls w' @
       [Stop (if url (props w) \<noteq> url nextProps then next_handle w else h)] \<and>
     timers w'' = timers w"
  using assms by (simp add: defs nth_append)

theorem deactivate_sequence_witness:
  "\<exists>w w' w''. run_events example_helpers (mount example_helpers example_props)
       [OnLoad 2, ReceiveProps (example_props\<lparr>active := True, fadeOutLength := 300\<rparr>) 0] =
       Inr w \<and>
     step example_helpers w (ReceiveProps (example_props\<lparr>fadeOutLength := 300\<rparr>) 100) =
       Inr w' \<and>
     calls w' = [New 0 ''a.mp3'' ''mp3'', Play 0, Fade 0 0 1 0, Fade 0 1 0 300] \<and>
     timers w' = [(300, StopTimer)] \<and> progress (state w') = Num 0 \<and>
     step example_helpers w' (Timeout 0) = Inr w'' \<and>
     calls w'' = [New 0 ''a.mp3'' ''mp3'', Play 0, Fade 0 0 1 0, Fade 0 1 0 300, Stop 0] \<and>
     timers w'' = []"
  using deactivate_sequence [of "projr (run_events example_helpers
       (mount example_helpers example_props)
       [OnLoad 2, ReceiveProps (example_props\<lparr>active := True, fadeOutLength := 300\<rparr>) 0])"
       "example_props\<lparr>fadeOutLength := 300\<rparr>" 0 example_helpers 100]
  by (simp add: defs example_props_def example_helpers_def)

text \<open>
  Claim C9. An update that leaves \<open>active\<close> as it was calls neither \<open>play()\<close> nor
  \<open>stop()\<close> nor \<open>fade()\<close>, and sets no timer: the engine is called only when the URL
  changed, and then only to unload the old session and create the new one.
\<close>

theorem same_active_no_engine_call:
  assumes "active nextProps = active (props w)"
  shows "\<exists>w'. step H w (ReceiveProps nextProps t) = Inr w' \<and>
     calls w' = calls w @
       (if url (props w) \<noteq> url nextProps
        then (case howler w of None \<Rightarrow> [] | Some h \<Rightarrow> [Unload h]) @
             [New (next_handle w) (url (props w)) (audioFormat (props w))]
        else []) \<and>
     filter (\<lambda>c. is_Play c \<or> is_Stop c \<or> is_Fade c) (drop (length (calls w)) (calls w')) = [] \<and>
     timers w' = timers w \<and> frames w' = frames w \<and> state w' = state w \<and>
     props w' = nextProps"
  using assms by (auto simp add: defs split: option.splits)

theorem same_active_no_engine_call_witness:
  "\<exists>w w'. run_events example_helpers (mount example_helpers example_props)
       [OnLoad 2, ReceiveProps (example_props\<lparr>active := True\<rparr>) 0] = Inr w \<and>
     active (props w) \<and>
     step example_helpers w (ReceiveProps (example_props\<lparr>active := True, size_prop := 60\<rparr>) 50)
       = Inr w' \<and>
     calls w' = calls w \<and> timers w' = timers w \<and> frames w' = frames w"
  using same_active_no_engine_call [of "example_props\<lparr>active := True, size_prop := 60\<rparr>"
       "projr (run_events example_helpers (mount example_helpers example_props)
       [OnLoad 2, ReceiveProps (example_props\<lparr>active := True\<rparr>) 0])" example_helpers 50]
  by (simp add: defs example_props_def example_helpers_def)

section \<open>The icon morph\<close>

lemma ease_finite:
  assumes "d \<noteq> 0"
  shows "easeOutCubic (Num t) (Num b) (js_sub (Num f) (Num b)) (Num d) =
     Num (ease_real t b (f - b) d)"
  using assms
  by (simp add: easeOutCubic_def ease_real_def js_sub_def js_pow3_def power3_eq_cube)

lemma ease_distance:
  fixes t d b f :: real
  shows "f - ease_real t b (f - b) d = (f - b) * (1 - t / d) ^ 3"
proof -
  have a: "- (1 - t / d) = t / d - 1" by simp
  have "(- (1 - t / d)) ^ 3 = - ((1 - t / d) ^ 3)"
    by (rule power_minus_odd) simp
  then have "(t / d - 1) ^ 3 = - ((1 - t / d) ^ 3)"
    by (simp only: a)
  then show ?thesis
    by (simp add: ease_real_def algebra_simps)
qed

lemma ease_end:
  fixes d b f :: real
  assumes "d \<noteq> 0"
  shows "ease_real d b (f - b) d = f"
  using assms by (simp add: ease_real_def)

lemma ease_between:
  fixes t d b f :: real
  assumes "0 < d" and "0 \<le> t" and "t \<le> d"
  shows "min b f \<le> ease_real t b (f - b) d \<and> ease_real t b (f - b) d \<le> max b f"
proof -
  define x where "x = 1 - t / d"
  have x0: "0 \<le> x" and x1: "x \<le> 1"
    using assms by (simp_all add: x_def)
  have c0: "0 \<le> x ^ 3" using x0 by simp
  have c1: "x ^ 3 \<le> 1" using x0 x1 by (rule power_le_one)
  have e: "ease_real t b (f - b) d = f - (f - b) * x ^ 3"
    using ease_distance [of f t b d] by (simp add: x_def)
  show ?thesis
  proof (cases "b \<le> f")
    case True
    have "0 \<le> (f - b) * x ^ 3" using True c0 by simp
    moreover have "(f - b) * x ^ 3 \<le> (f - b) * 1"
      using True c1 by (intro mult_left_mono) simp_all
    ultimately show ?thesis using True by (simp add: e)
  next
    case False
    then have n: "0 \<le> b - f" by simp
    have "0 \<le> (b - f) * x ^ 3" using n c0 by simp
    moreover have "(b - f) * x ^ 3 \<le> (b - f) * 1"
      using n c1 by (intro mult_left_mono) simp_all
    ultimately show ?thesis using False by (simp add: e algebra_simps)
  qed
qed

lemma ease_approach:
  fixes t0 t d b f :: real
  assumes "0 < d" and "t0 \<le> t" and "t \<le> d"
  shows "\<bar>f - ease_real t b (f - b) d\<bar> \<le> \<bar>f - ease_real t0 b (f - b) d\<bar>"
proof -
  have x: "0 \<le> 1 - t / d" using assms by simp
  have "t0 / d \<le> t / d"
    using assms(1,2) by (intro divide_right_mono) simp_all
  then have "1 - t / d \<le> 1 - t0 / d" by simp
  then have p: "(1 - t / d) ^ 3 \<le> (1 - t0 / d) ^ 3"
    using x by (rule power_mono)
  have p0: "0 \<le> (1 - t / d) ^ 3" using x by simp
  from p0 p have p1: "0 \<le> (1 - t0 / d) ^ 3" by (rule order_trans)
  have "\<bar>f - b\<bar> * (1 - t / d) ^ 3 \<le> \<bar>f - b\<bar> * (1 - t0 / d) ^ 3"
    using p by (intro mult_left_mono) simp_all
  then show ?thesis
    using p0 p1 by (simp add: ease_distance abs_mult)
qed

lemma newPoints_finite:
  assumes "d \<noteq> 0" and "length ip = length fp"
  shows "newPoints t d (finite_points ip) (finite_points fp) =
     Some (finite_points (morphed t d ip fp))"
  using assms(2)
proof (induction ip fp rule: list_induct2)
  case Nil
  show ?case by (simp add: finite_points_def morphed_def)
next
  case (Cons a ip c fp)
  obtain ix iy where a: "a = (ix, iy)" by (cases a)
  obtain fx fy where c: "c = (fx, fy)" by (cases c)
  from Cons.IH show ?case
    by (simp add: finite_points_def morphed_def a c ease_finite [OF assms(1)])
qed

lemma morphed_length: "length ip = length fp \<Longrightarrow> length (morphed t d ip fp) = length ip"
  by (simp add: morphed_def)

lemma morphed_nth:
  assumes "length ip = length fp" and "i < length ip"
  shows "morphed t d ip fp ! i =
     (ease_real t (fst (ip ! i)) (fst (fp ! i) - fst (ip ! i)) d,
      ease_real t (snd (ip ! i)) (snd (fp ! i) - snd (ip ! i)) d)"
  using assms by (simp add: morphed_def split_beta)

lemma morphed_end:
  assumes "d \<noteq> 0" and "length ip = length fp"
  shows "morphed d d ip fp = fp"
  using assms(2)
  by (induction ip fp rule: list_induct2) (simp_all add: morphed_def ease_end [OF assms(1)])

lemma iconFrame_finite:
  assumes "frames w = IconFrame r # fs"
    and "initialPoints r = finite_points ip" and "finalPoints r = finite_points fp"
    and "length ip = length fp" and "0 < durationMs r"
    and "now - startTime r \<le> durationMs r"
  shows "step H w (Frame now s) =
     Inr (w\<lparr>state := (state w)
             \<lparr>iconPoints := finite_points (morphed (now - startTime r) (durationMs r) ip fp)\<rparr>,
            frames := fs @ [IconFrame r]\<rparr>)"
proof -
  have "durationMs r \<noteq> 0" using assms(5) by simp
  from newPoints_finite [OF this assms(4)] assms(1,2,3,6) show ?thesis
    by (simp add: iconFrame_def)
qed

text \<open>
  Claim C2, as the code has it. For a run of positive duration between finite points
  (as many final as initial ones), a frame at an elapsed time from 0 to the duration
  publishes points whose every coordinate lies between its initial and its final
  value, and asks for the next frame; at an elapsed time equal to the duration the
  published points are the final points. The approach is monotonic: no coordinate
  published by an earlier frame of the run is closer to its final value. Coordinates
  are reals: rounding is not modelled.
\<close>

theorem icon_morph_converges:
  assumes "frames w = IconFrame r # fs"
    and "initialPoints r = finite_points ip" and "finalPoints r = finite_points fp"
    and "length ip = length fp" and "0 < durationMs r"
    and "0 \<le> now - startTime r" and "now - startTime r \<le> durationMs r"
  shows "\<exists>w' qs. step H w (Frame now s) = Inr w' \<and>
     iconPoints (state w') = finite_points qs \<and> length qs = length ip \<and>
     frames w' = fs @ [IconFrame r] \<and>
     (\<forall>i<length ip.
        min (fst (ip ! i)) (fst (fp ! i)) \<le> fst (qs ! i) \<and>
        fst (qs ! i) \<le> max (fst (ip ! i)) (fst (fp ! i)) \<and>
        min (snd (ip ! i)) (snd (fp ! i)) \<le> snd (qs ! i) \<and>
        snd (qs ! i) \<le> max (snd (ip ! i)) (snd (fp ! i))) \<and>
     (now - startTime r = durationMs r \<longrightarrow> qs = fp) \<and>
     (\<forall>w0 fs0 now0 s0. frames w0 = IconFrame r # fs0 \<and> now0 \<le> now \<longrightarrow>
        (\<exists>w0' qs0. step H w0 (Frame now0 s0) = Inr w0' \<and>
           iconPoints (state w0') = finite_points qs0 \<and> length qs0 = length ip \<and>
           (\<forall>i<length ip.
              \<bar>fst (fp ! i) - fst (qs ! i)\<bar> \<le> \<bar>fst (fp ! i) - fst (qs0 ! i)\<bar> \<and>
              \<bar>snd (fp ! i) - snd (qs ! i)\<bar> \<le> \<bar>snd (fp ! i) - snd (qs0 ! i)\<bar>)))"
proof -
  let ?t = "now - startTime r"
  let ?d = "durationMs r"
  let ?qs = "morphed ?t ?d ip fp"
  let ?w' = "w\<lparr>state := (state w)\<lparr>iconPoints := finite_points ?qs\<rparr>,
     frames := fs @ [IconFrame r]\<rparr>"
  have st: "step H w (Frame now s) = Inr ?w'"
    by (rule iconFrame_finite [OF assms(1,2,3,4,5,7)])
  have len: "length ?qs = length ip"
    by (rule morphed_length [OF assms(4)])
  have btw: "\<forall>i<length ip.
        min (fst (ip ! i)) (fst (fp ! i)) \<le> fst (?qs ! i) \<and>
        fst (?qs ! i) \<le> max (fst (ip ! i)) (fst (fp ! i)) \<and>
        min (snd (ip ! i)) (snd (fp ! i)) \<le> snd (?qs ! i) \<and>
        snd (?qs ! i) \<le> max (snd (ip ! i)) (snd (fp ! i))"
    using ease_between [OF assms(5,6,7)] by (simp add: morphed_nth [OF assms(4)])
  have fin: "?t = ?d \<longrightarrow> ?qs = fp"
    using morphed_end [OF _ assms(4), of ?d] assms(5) by auto
  have mono: "\<exists>w0' qs0. step H w0 (Frame now0 s0) = Inr w0' \<and>
           iconPoints (state w0') = finite_points qs0 \<and> length qs0 = length ip \<and>
           (\<forall>i<length ip.
              \<bar>fst (fp ! i) - fst (?qs ! i)\<bar> \<le> \<bar>fst (fp ! i) - fst (qs0 ! i)\<bar> \<and>
              \<bar>snd (fp ! i) - snd (?qs ! i)\<bar> \<le> \<bar>snd (fp ! i) - snd (qs0 ! i)\<bar>)"
    if f0: "frames w0 = IconFrame r # fs0" and le: "now0 \<le> now" for w0 fs0 now0 s0
  proof -
    let ?u = "now0 - startTime r"
    let ?ps = "morphed ?u ?d ip fp"
    have t0: "?u \<le> ?t" using le by simp
    then have "?u \<le> ?d" using assms(7) by linarith
    from iconFrame_finite [OF f0 assms(2,3,4,5) this]
    have s0: "step H w0 (Frame now0 s0) =
        Inr (w0\<lparr>state := (state w0)\<lparr>iconPoints := finite_points ?ps\<rparr>,
               frames := fs0 @ [IconFrame r]\<rparr>)" .
    have "\<forall>i<length ip.
        \<bar>fst (fp ! i) - fst (?qs ! i)\<bar> \<le> \<bar>fst (fp ! i) - fst (?ps ! i)\<bar> \<and>
        \<bar>snd (fp ! i) - snd (?qs ! i)\<bar> \<le> \<bar>snd (fp ! i) - snd (?ps ! i)\<bar>"
      using ease_approach [OF assms(5) t0 assms(7)] by (simp add: morphed_nth [OF assms(4)])
    with s0 morphed_length [OF assms(4), of ?u ?d] show ?thesis
      by (intro exI [of _ "w0\<lparr>state := (state w0)\<lparr>iconPoints := finite_points ?ps\<rparr>,
               frames := fs0 @ [IconFrame r]\<rparr>"] exI [of _ ?ps]) simp
  qed
  from st len btw fin mono show ?thesis
    by (intro exI [of _ ?w'] exI [of _ ?qs]) simp
qed

theorem icon_morph_converges_witness:
  "\<exists>w w'. step example_helpers (mount example_helpers example_props)
       (ReceiveProps (example_props\<lparr>active := True\<rparr>) 0) = Inr w \<and>
     step example_helpers w (Frame 450 0.45) = Inr w' \<and>
     iconPoints (state w) = getPlayIconPoints example_helpers example_props \<and>
     iconPoints (state w') = getStopIconPoints example_helpers example_props"
  using icon_morph_converges [of "projr (step example_helpers
       (mount example_helpers example_props)
       (ReceiveProps (example_props\<lparr>active := True\<rparr>) 0))" _ "[ProgressFrame]"
       "[(16, 13), (16, 32), (33, 22), (33, 22)]" "[(14, 14), (14, 31), (31, 31), (31, 14)]"
       450 example_helpers "0.45"]
  by (auto simp add: defs example_props_def example_helpers_def)

text \<open>
  Claim C2 as stated fails for a run of duration 0, which the configuration allows:
  a frame in the very millisecond of the start divides 0 by 0, and the published
  coordinates are \<open>NaN\<close>, not the target shape.
\<close>

theorem icon_morph_zero_duration_counterexample:
  "\<exists>w w'. step example_helpers (mount example_helpers (example_props\<lparr>iconAnimationLength := 0\<rparr>))
       (ReceiveProps (example_props\<lparr>iconAnimationLength := 0, active := True\<rparr>) 7) = Inr w \<and>
     step example_helpers w (Frame 7 0) = Inr w' \<and>
     iconPoints (state w') = [(NaN, NaN), (NaN, NaN), (NaN, NaN), (NaN, NaN)] \<and>
     iconPoints (state w') \<noteq>
       getStopIconPoints example_helpers (example_props\<lparr>iconAnimationLength := 0\<rparr>)"
  by (simp add: defs ex_defs easeOutCubic_def js_sub_def js_pow3_def)

text \<open>
  Claim C7, as the code has it. Nothing cancels a run when a newer one starts: whatever
  else is pending, a run's frame callback publishes and asks for its next frame as long
  as its own elapsed time is at most its duration, and only a frame after that time
  ends it, publishing nothing and asking for no further frame.
\<close>

theorem superseded_run_keeps_publishing:
  assumes "frames w = IconFrame r # fs"
    and "newPoints (now - startTime r) (durationMs r) (initialPoints r) (finalPoints r) =
      Some ps"
  shows "(now - startTime r \<le> durationMs r \<longrightarrow>
        step H w (Frame now s) =
          Inr (w\<lparr>state := (state w)\<lparr>iconPoints := ps\<rparr>, frames := fs @ [IconFrame r]\<rparr>)) \<and>
     (durationMs r < now - startTime r \<longrightarrow> step H w (Frame now s) = Inr (w\<lparr>frames := fs\<rparr>))"
  using assms by (simp add: iconFrame_def)

theorem superseded_run_keeps_publishing_witness:
  "\<exists>w w' r2. run_events example_helpers (mount example_helpers example_props)
       [OnLoad 2, ReceiveProps (example_props\<lparr>active := True\<rparr>) 0, Frame 150 0.1,
        Frame 150 0.1, ReceiveProps example_props 200] = Inr w \<and>
     frames w =
       [IconFrame \<lparr>startTime = 0, durationMs = 450,
          initialPoints = finite_points [(16, 13), (16, 32), (33, 22), (33, 22)],
          finalPoints = finite_points [(14, 14), (14, 31), (31, 31), (31, 14)]\<rparr>,
        ProgressFrame, IconFrame r2] \<and>
     startTime r2 = 200 \<and>
     step example_helpers w (Frame 300 0.2) = Inr w' \<and>
     iconPoints (state w') =
       finite_points [(380 / 27, 377 / 27), (380 / 27, 838 / 27), (839 / 27, 92 / 3),
         (839 / 27, 386 / 27)] \<and>
     frames w' =
       [ProgressFrame, IconFrame r2,
        IconFrame \<lparr>startTime = 0, durationMs = 450,
          initialPoints = finite_points [(16, 13), (16, 32), (33, 22), (33, 22)],
          finalPoints = finite_points [(14, 14), (14, 31), (31, 31), (31, 14)]\<rparr>]"
  using superseded_run_keeps_publishing [of "projr (run_events example_helpers
       (mount example_helpers example_props)
       [OnLoad 2, ReceiveProps (example_props\<lparr>active := True\<rparr>) 0, Frame 150 0.1,
        Frame 150 0.1, ReceiveProps example_props 200])"
       "\<lparr>startTime = 0, durationMs = 450,
          initialPoints = finite_points [(16, 13), (16, 32), (33, 22), (33, 22)],
          finalPoints = finite_points [(14, 14), (14, 31), (31, 31), (31, 14)]\<rparr>"
       "tl (frames (projr (run_events example_helpers
       (mount example_helpers example_props)
       [OnLoad 2, ReceiveProps (example_props\<lparr>active := True\<rparr>) 0, Frame 150 0.1,
        Frame 150 0.1, ReceiveProps example_props 200])))"
       300
       "finite_points [(380 / 27, 377 / 27), (380 / 27, 838 / 27), (839 / 27, 92 / 3),
         (839 / 27, 386 / 27)]"
       example_helpers "0.2"]
  by (simp add: defs ex_defs easeOutCubic_def js_sub_def js_pow3_def)

text \<open>
  Claim C7 as stated fails: a run towards the stop shape started at time 0 is
  superseded at time 200 by a run towards the play shape, and at time 216 the old
  run's callback still publishes new points and asks for another frame.
\<close>

theorem superseded_run_counterexample:
  "\<exists>w w' r1 r2. run_events example_helpers (mount example_helpers example_props)
       [OnLoad 2, ReceiveProps (example_props\<lparr>active := True\<rparr>) 0, Frame 150 0.1,
        Frame 150 0.1, ReceiveProps example_props 200] = Inr w \<and>
     frames w = [IconFrame r1, ProgressFrame, IconFrame r2] \<and>
     startTime r1 = 0 \<and> finalPoints r1 = getStopIconPoints example_helpers example_props \<and>
     startTime r2 = 200 \<and> finalPoints r2 = getPlayIconPoints example_helpers example_props \<and>
     step example_helpers w (Frame 216 0.2) = Inr w' \<and>
     iconPoints (state w') \<noteq> iconPoints (state w) \<and>
     frames w' = [ProgressFrame, IconFrame r2, IconFrame r1]"
  by (simp add: defs ex_defs easeOutCubic_def js_sub_def js_pow3_def)

section \<open>Sessions\<close>

text \<open>
  Claim C8, as the code has it. An update that changes the URL unloads the current
  session and then creates one new session, which becomes the current one; these are
  the last two engine calls of the update. The rebind touches neither the loading flag
  nor the recorded duration, so a progress callback that fires before the new session
  reports its load still divides by the duration recorded before.
\<close>

theorem url_change_rebinds:
  assumes "url (props w) \<noteq> url nextProps" and "howler w = Some h"
  shows "\<exists>w' pre u f. step H w (ReceiveProps nextProps t) = Inr w' \<and>
     calls w' = calls w @ pre @ [Unload h, New (next_handle w) u f] \<and>
     filter (\<lambda>c. is_New c \<or> is_Unload c) pre = [] \<and>
     howler w' = Some (next_handle w) \<and>
     loading (state w') = loading (state w) \<and>
     duration (state w') = duration (state w) \<and>
     (\<forall>fs t' s. frames w' = ProgressFrame # fs \<longrightarrow>
        (\<exists>w''. step H w' (Frame t' s) = Inr w'' \<and>
           progress (state w'') = js_div (Num (s * 1000)) (to_number (duration (state w)))))"
proof -
  let ?n = "New (next_handle w) (url (props w)) (audioFormat (props w))"
  let ?pre = "if \<not> active (props w) \<and> active nextProps
      then [Play h, Fade h 0 1 (fadeInLength (props w))]
      else if active (props w) \<and> \<not> active nextProps
      then [Fade h 1 0 (fadeOutLength (props w))] else []"
  have "\<exists>w'. step H w (ReceiveProps nextProps t) = Inr w' \<and>
      calls w' = calls w @ ?pre @ [Unload h, ?n] \<and> howler w' = Some (next_handle w) \<and>
      loading (state w') = loading (state w) \<and> duration (state w') = duration (state w)"
    using assms by (auto simp add: defs)
  then obtain w' where s: "step H w (ReceiveProps nextProps t) = Inr w'"
    and c: "calls w' = calls w @ ?pre @ [Unload h, ?n]"
    and h: "howler w' = Some (next_handle w)"
    and l: "loading (state w') = loading (state w)"
    and d: "duration (state w') = duration (state w)"
    by blast
  have p: "filter (\<lambda>c. is_New c \<or> is_Unload c) ?pre = []"
    by simp
  have "\<exists>w''. step H w' (Frame t' s) = Inr w'' \<and>
      progress (state w'') = js_div (Num (s * 1000)) (to_number (duration (state w)))"
    if "frames w' = ProgressFrame # fs" for fs t' s
    using that h d by (simp add: progressFrame_def updateProgress_def)
  with s c p h l d show ?thesis by blast
qed

theorem url_change_rebinds_witness:
  "\<exists>w w' w''. run_events example_helpers (mount example_helpers example_props)
       [OnLoad 1, ReceiveProps (example_props\<lparr>active := True\<rparr>) 0, Frame 1000 0.5] = Inr w \<and>
     step example_helpers w (ReceiveProps (example_props\<lparr>active := True, url := ''b.mp3''\<rparr>) 1010)
       = Inr w' \<and>
     length (calls w') = 5 \<and> calls w' ! 3 = Unload 0 \<and> is_New (calls w' ! 4) \<and>
     howler w' = Some 1 \<and> loading (state w') = loading (state w) \<and>
     duration (state w') = Some (Num 1000) \<and>
     step example_helpers w' (Frame 1016 0.25) = Inr w'' \<and>
     progress (state w'') = Num (1 / 4)"
  using url_change_rebinds [of "projr (run_events example_helpers
       (mount example_helpers example_props)
       [OnLoad 1, ReceiveProps (example_props\<lparr>active := True\<rparr>) 0, Frame 1000 0.5])"
       "example_props\<lparr>active := True, url := ''b.mp3''\<rparr>" 0 example_helpers 1010]
  by (simp add: defs example_props_def example_helpers_def)

text \<open>
  Claim C8 as stated fails: after the URL changed while the component was active the
  loading flag is still false, and the next progress callback publishes the engine's
  position over the 1000 ms recorded for the old session.
\<close>

theorem url_change_counterexample:
  "\<exists>w w'. run_events example_helpers (mount example_helpers example_props)
       [OnLoad 1, ReceiveProps (example_props\<lparr>active := True\<rparr>) 0, Frame 1000 0.5,
        ReceiveProps (example_props\<lparr>active := True, url := ''b.mp3''\<rparr>) 1010] = Inr w \<and>
     live (calls w) = [1] \<and> \<not> loading (state w) \<and> duration (state w) = Some (Num 1000) \<and>
     step example_helpers w (Frame 1016 0.25) = Inr w' \<and>
     \<not> loading (state w') \<and> progress (state w') = Num (250 / 1000)"
  by (simp add: defs ex_defs live_def)

lemma live_after_append:
  "live_after acc (xs @ ys) = live_after (live_after acc xs) ys"
  by (induction acc xs rule: live_after.induct) simp_all

lemma live_append: "live (xs @ ys) = live_after (live xs) ys"
  by (simp add: live_def live_after_append)

lemma prefixes_live_append:
  assumes "\<forall>cs\<in>set (prefixes xs). length (live cs) \<le> 1"
    and "\<forall>ds\<in>set (prefixes ys). length (live_after (live xs) ds) \<le> 1"
  shows "\<forall>cs\<in>set (prefixes (xs @ ys)). length (live cs) \<le> 1"
proof
  fix cs assume "cs \<in> set (prefixes (xs @ ys))"
  then have "prefix cs (xs @ ys)" by simp
  then consider "prefix cs xs" | ds where "cs = xs @ ds" and "prefix ds ys"
    by (auto simp add: prefix_append)
  then show "length (live cs) \<le> 1"
  proof cases
    case 1
    with assms(1) show ?thesis by simp
  next
    case 2
    with assms(2) show ?thesis by (simp add: live_append)
  qed
qed

text \<open>The session invariant of a mounted component, before and after an unmount.\<close>

lemma step_sessions:
  assumes "step H w e = Inr w'" and "howler w = Some h"
    and "live (calls w) = [h] \<or> live (calls w) = []"
    and "\<forall>cs\<in>set (prefixes (calls w)). length (live cs) \<le> 1"
  shows "\<exists>h'. howler w' = Some h' \<and> (live (calls w') = [h'] \<or> live (calls w') = []) \<and>
     (e \<noteq> Unmount \<and> live (calls w) = [h] \<longrightarrow> live (calls w') = [h']) \<and>
     (\<forall>cs\<in>set (prefixes (calls w')). length (live cs) \<le> 1)"
proof -
  have "\<exists>ys h'. calls w' = calls w @ ys \<and> howler w' = Some h' \<and>
      (live_after (live (calls w)) ys = [h'] \<or> live_after (live (calls w)) ys = []) \<and>
      (e \<noteq> Unmount \<and> live (calls w) = [h] \<longrightarrow> live_after (live (calls w)) ys = [h']) \<and>
      (\<forall>ds\<in>set (prefixes ys). length (live_after (live (calls w)) ds) \<le> 1)"
  proof (cases e)
    case (ReceiveProps np t)
    with assms(1,2,3) show ?thesis
      by (auto simp add: defs split: if_splits)
  next
    case (Frame t s)
    with assms(1,2,3) show ?thesis
      by (auto simp add: defs split: if_splits option.splits list.splits frame.splits)
  next
    case (Timeout i)
    with assms(1,2,3) show ?thesis
      by (auto simp add: defs split: if_splits timer.splits)
  next
    case (OnLoad d)
    with assms(1,2,3) show ?thesis
      by (auto simp add: defs)
  next
    case Unmount
    with assms(1,2,3) show ?thesis
      by (auto simp add: defs)
  qed
  then obtain ys h' where c: "calls w' = calls w @ ys" and h: "howler w' = Some h'"
    and l: "live_after (live (calls w)) ys = [h'] \<or> live_after (live (calls w)) ys = []"
    and m: "e \<noteq> Unmount \<and> live (calls w) = [h] \<longrightarrow> live_after (live (calls w)) ys = [h']"
    and p: "\<forall>ds\<in>set (prefixes ys). length (live_after (live (calls w)) ds) \<le> 1"
    by blast
  from prefixes_live_append [OF assms(4) p] c
  have "\<forall>cs\<in>set (prefixes (calls w')). length (live cs) \<le> 1" by simp
  with h l m c show ?thesis by (simp add: live_append)
qed

lemma run_events_sessions:
  assumes "run_events H w evs = Inr w'" and "howler w = Some h"
    and "live (calls w) = [h] \<or> live (calls w) = []"
    and "\<forall>cs\<in>set (prefixes (calls w)). length (live cs) \<le> 1"
  shows "\<exists>h'. howler w' = Some h' \<and>
     (Unmount \<notin> set evs \<and> live (calls w) = [h] \<longrightarrow> live (calls w') = [h']) \<and>
     (\<forall>cs\<in>set (prefixes (calls w')). length (live cs) \<le> 1)"
  using assms
proof (induction evs arbitrary: w h)
  case Nil
  then show ?case by simp
next
  case (Cons e es)
  from Cons.prems(1) obtain w1
    where s: "step H w e = Inr w1" and r: "run_events H w1 es = Inr w'"
    by (auto split: sum.splits)
  from step_sessions [OF s Cons.prems(2,3,4)] obtain h1
    where h1: "howler w1 = Some h1"
      and l1: "live (calls w1) = [h1] \<or> live (calls w1) = []"
      and m1: "e \<noteq> Unmount \<and> live (calls w) = [h] \<longrightarrow> live (calls w1) = [h1]"
      and p1: "\<forall>cs\<in>set (prefixes (calls w1)). length (live cs) \<le> 1"
    by blast
  from Cons.IH [OF r h1 l1 p1] obtain h' where "howler w' = Some h'"
    and "Unmount \<notin> set es \<and> live (calls w1) = [h1] \<longrightarrow> live (calls w') = [h']"
    and "\<forall>cs\<in>set (prefixes (calls w')). length (live cs) \<le> 1"
    by blast
  with m1 show ?case by auto
qed

lemma mount_sessions:
  "live (calls (mount H p)) = [0]"
  "\<forall>cs\<in>set (prefixes (calls (mount H p))). length (live cs) \<le> 1"
  by (simp_all add: defs live_def)

lemma binds_sessions:
  "0 < n \<Longrightarrow>
   howler ((setupHowler ^^ n) (constructor H p)) = Some (n - 1) \<and>
   next_handle ((setupHowler ^^ n) (constructor H p)) = n \<and>
   live (calls ((setupHowler ^^ n) (constructor H p))) = [n - 1]"
proof (induction n)
  case 0
  then show ?case by simp
next
  case (Suc n)
  show ?case
  proof (cases "n = 0")
    case True
    then show ?thesis by (simp add: defs live_def)
  next
    case False
    with Suc.IH show ?thesis
      by (simp add: setupHowler_def Let_def live_append)
  qed
qed

text \<open>
  Claim C5. In every execution of a mounted component, at every point of the engine's
  call log at most one session has been created and not yet unloaded. \<open>setupHowler\<close>
  unloads the current session, if there is one, before it creates the new one, and with
  no session bound yet it only creates one: the release is skipped, nothing fails.
  And after any number of binds exactly one session is live, and unmounting unloads
  exactly that one: both for \<open>n\<close> binds in a row on a fresh component and for any
  execution up to its unmount.
\<close>

theorem one_live_session:
  "(run_events H (mount H p) evs = Inr w \<longrightarrow>
      (\<forall>cs\<in>set (prefixes (calls w)). length (live cs) \<le> 1) \<and>
      (Unmount \<notin> set evs \<longrightarrow>
         (\<exists>h w'. howler w = Some h \<and> live (calls w) = [h] \<and>
            step H w Unmount = Inr w' \<and> calls w' = calls w @ [Unload h] \<and>
            live (calls w') = []))) \<and>
   (howler w0 = None \<longrightarrow>
      calls (setupHowler w0) =
        calls w0 @ [New (next_handle w0) (url (props w0)) (audioFormat (props w0))]) \<and>
   (howler w0 = Some h0 \<longrightarrow>
      calls (setupHowler w0) =
        calls w0 @
          [Unload h0, New (next_handle w0) (url (props w0)) (audioFormat (props w0))]) \<and>
   (0 < n \<longrightarrow>
      (\<exists>h w'. howler ((setupHowler ^^ n) (constructor H p)) = Some h \<and>
         live (calls ((setupHowler ^^ n) (constructor H p))) = [h] \<and>
         componentWillUnmount ((setupHowler ^^ n) (constructor H p)) = Inr w' \<and>
         calls w' = calls ((setupHowler ^^ n) (constructor H p)) @ [Unload h] \<and>
         live (calls w') = []))"
proof (intro conjI impI)
  assume r: "run_events H (mount H p) evs = Inr w"
  from run_events_sessions [OF r mount_howler _ mount_sessions(2)] mount_sessions(1)
  obtain h where h: "howler w = Some h"
    and l: "Unmount \<notin> set evs \<longrightarrow> live (calls w) = [h]"
    and p: "\<forall>cs\<in>set (prefixes (calls w)). length (live cs) \<le> 1"
    by auto
  from p show "\<forall>cs\<in>set (prefixes (calls w)). length (live cs) \<le> 1" .
  assume "Unmount \<notin> set evs"
  with l have "live (calls w) = [h]" by simp
  with h show "\<exists>h w'. howler w = Some h \<and> live (calls w) = [h] \<and>
      step H w Unmount = Inr w' \<and> calls w' = calls w @ [Unload h] \<and> live (calls w') = []"
    by (simp add: componentWillUnmount_def live_append)
next
  assume "howler w0 = None"
  then show "calls (setupHowler w0) =
      calls w0 @ [New (next_handle w0) (url (props w0)) (audioFormat (props w0))]"
    by (simp add: setupHowler_def Let_def)
next
  assume "howler w0 = Some h0"
  then show "calls (setupHowler w0) =
      calls w0 @ [Unload h0, New (next_handle w0) (url (props w0)) (audioFormat (props w0))]"
    by (simp add: setupHowler_def Let_def)
next
  assume "0 < n"
  from binds_sessions [OF this, of H p]
  show "\<exists>h w'. howler ((setupHowler ^^ n) (constructor H p)) = Some h \<and>
      live (calls ((setupHowler ^^ n) (constructor H p))) = [h] \<and>
      componentWillUnmount ((setupHowler ^^ n) (constructor H p)) = Inr w' \<and>
      calls w' = calls ((setupHowler ^^ n) (constructor H p)) @ [Unload h] \<and>
      live (calls w') = []"
    by (simp add: componentWillUnmount_def live_append)
qed

theorem one_live_session_witness:
  "\<exists>w w'. run_events example_helpers (mount example_helpers example_props)
       [OnLoad 2, ReceiveProps (example_props\<lparr>url := ''b.mp3''\<rparr>) 10,
        ReceiveProps (example_props\<lparr>url := ''c.mp3''\<rparr>) 20] = Inr w \<and>
     list_all (\<lambda>cs. length (live cs) \<le> 1) (prefixes (calls w)) \<and>
     howler w = Some 2 \<and> live (calls w) = [2] \<and>
     step example_helpers w Unmount = Inr w' \<and> calls w' = calls w @ [Unload 2] \<and>
     live (calls w') = [] \<and>
     calls (setupHowler (constructor example_helpers example_props)) =
       [New 0 ''a.mp3'' ''mp3''] \<and>
     calls (setupHowler (mount example_helpers example_props)) =
       [New 0 ''a.mp3'' ''mp3'', Unload 0, New 1 ''a.mp3'' ''mp3''] \<and>
     live (calls ((setupHowler ^^ 3) (constructor example_helpers example_props))) = [2]"
  using one_live_session [of example_helpers example_props
       "[OnLoad 2, ReceiveProps (example_props\<lparr>url := ''b.mp3''\<rparr>) 10,
         ReceiveProps (example_props\<lparr>url := ''c.mp3''\<rparr>) 20]"
       "projr (run_events example_helpers (mount example_helpers example_props)
       [OnLoad 2, ReceiveProps (example_props\<lparr>url := ''b.mp3''\<rparr>) 10,
        ReceiveProps (example_props\<lparr>url := ''c.mp3''\<rparr>) 20])"
       "constructor example_helpers example_props" 0 3]
  by (simp add: defs ex_defs live_def numeral_3_eq_3)

end
